theory Spec2Isabelle
  imports Main "HOL-Library.Multiset" "HOL-Library.AList"
begin

section \<open>Values exchanged with the translation-management API\<close>

text \<open>
  Decoded JSON, as \<^verbatim>\<open>json.loads\<close> hands it to the scripts. Numbers are integers;
  an object is an association list in the order of the document.
\<close>

datatype json =
    JNull
  | JBool bool
  | JNum int
  | JStr string
  | JArr "json list"
  | JObj "(string \<times> json) list"

text \<open>Python's truth value of a decoded JSON value (\<^verbatim>\<open>if not data\<close>).\<close>

fun truthy :: "json \<Rightarrow> bool" where
  "truthy JNull = False"
| "truthy (JBool b) = b"
| "truthy (JNum n) = (n \<noteq> 0)"
| "truthy (JStr s) = (s \<noteq> [])"
| "truthy (JArr xs) = (xs \<noteq> [])"
| "truthy (JObj kvs) = (kvs \<noteq> [])"

text \<open>The exceptions the scripts raise or let through; \<^verbatim>\<open>sys.exit(n)\<close> is \<open>SystemExit n\<close>.\<close>

datatype error =
    ClientConnectionError
  | UnicodeDecodeError
  | MaxRetriesExceeded
  | TypeError
  | AttributeError
  | KeyError string
  | IndexError
  | ValueError
  | HTTPError
  | SystemExit int

text \<open>A project object of the API; \<open>proj_id\<close> is \<open>None\<close> when it has no \<^verbatim>\<open>'id'\<close>.\<close>

record project =
  proj_id :: "string option"

text \<open>
  \<^verbatim>\<open>list.extend(data)\<close>: a list is appended, a dict contributes its keys, a string its
  characters; any other value is not iterable.
\<close>

fun py_extend :: "json list \<Rightarrow> json \<Rightarrow> error + json list" where
  "py_extend acc (JArr xs) = Inr (acc @ xs)"
| "py_extend acc (JObj kvs) = Inr (acc @ map (\<lambda>kv. JStr (fst kv)) kvs)"
| "py_extend acc (JStr s) = Inr (acc @ map (\<lambda>c. JStr [c]) s)"
| "py_extend acc JNull = Inl TypeError"
| "py_extend acc (JBool b) = Inl TypeError"
| "py_extend acc (JNum n) = Inl TypeError"

section \<open>KeyLinkr.py: the resilient request executor\<close>

text \<open>
  A response as the executor and its callers read it. The two headers and the body are
  given together with what the library calls of the source make of them:
  \<^item> \<open>retry_after\<close> is \<^verbatim>\<open>response.headers.get("Retry-After")\<close> under \<^verbatim>\<open>int(...)\<close>:
    absent, an integer, or a text on which \<^verbatim>\<open>int\<close> raises ValueError;
  \<^item> \<open>pagination\<close> is \<^verbatim>\<open>response.headers.get("Pagination")\<close> under \<^verbatim>\<open>json.loads\<close>:
    absent or empty, malformed JSON, JSON that is no object (it has no \<^verbatim>\<open>get\<close>), or an
    object with its \<^verbatim>\<open>total_pages_count\<close> entry if it has one;
  \<^item> \<open>body\<close> is \<^verbatim>\<open>response.content.read()\<close> under \<^verbatim>\<open>decode('utf-8')\<close> and
    \<^verbatim>\<open>json.loads\<close>.
\<close>

datatype retry_after_header = NoRetryAfter | RetryAfterInt int | RetryAfterOther

datatype pagination_header =
    NoPagination
  | PaginationMalformed
  | PaginationNoGet
  | PaginationObject "json option"

datatype body = BadUtf8 | BadJson | Json json

record response =
  status :: int
  retry_after :: retry_after_header
  pagination :: pagination_header
  body :: body

datatype param = PInt int | PStr string

record request =
  req_method :: string
  req_url :: string
  req_params :: "(string \<times> param) list"
  req_json :: "string list option"

text \<open>
  One \<^verbatim>\<open>session.request\<close> either raises ClientConnectionError or yields a response.
  A session answers the \<open>k\<close>-th attempt (counted from 0) of a request.
\<close>

datatype outcome = Raises_ClientConnectionError | Responds response

type_synonym session = "request \<Rightarrow> nat \<Rightarrow> outcome"

text \<open>
  What \<^verbatim>\<open>request_with_retries\<close> returns: the tuple \<^verbatim>\<open>response, data\<close> of line 59 or the
  lone \<^verbatim>\<open>response\<close> of line 62.
\<close>

datatype rr_result = Pair response json | Bare response

definition max_retries :: nat where
  "max_retries = 10"

text \<open>Lines 64-68: the delay after a 429 at retry counter \<open>retries\<close>.\<close>

definition delay_429 :: "response \<Rightarrow> nat \<Rightarrow> int" where
  "delay_429 response retries =
     (case retry_after response of
        NoRetryAfter \<Rightarrow> 2 ^ retries
      | RetryAfterInt h \<Rightarrow> h
      | RetryAfterOther \<Rightarrow> 2 ^ retries)"

text \<open>
  The \<^verbatim>\<open>while retries <= max_retries\<close> loop of lines 46-81. The second component of the
  result lists the arguments of \<^verbatim>\<open>asyncio.sleep\<close>, in the order of the calls.
\<close>

function request_with_retries_loop ::
  "(nat \<Rightarrow> outcome) \<Rightarrow> nat \<Rightarrow> (error + rr_result) \<times> int list" where
  "request_with_retries_loop attempt retries =
     (if retries \<le> max_retries then
        (case attempt retries of
           Responds response \<Rightarrow>
             if status response \<noteq> 429 then
               (case body response of
                  BadUtf8 \<Rightarrow> (Inl UnicodeDecodeError, [])
                | BadJson \<Rightarrow> (Inr (Pair response (JObj [])), [])
                | Json data \<Rightarrow> (Inr (Pair response data), []))
             else if retries \<ge> max_retries then (Inr (Bare response), [])
             else
               (case request_with_retries_loop attempt (retries + 1) of
                  (r, sleeps) \<Rightarrow> (r, delay_429 response retries # sleeps))
         | Raises_ClientConnectionError \<Rightarrow>
             if retries \<ge> max_retries then (Inl ClientConnectionError, [])
             else
               (case request_with_retries_loop attempt (retries + 1) of
                  (r, sleeps) \<Rightarrow> (r, 2 ^ retries # sleeps)))
      else (Inl MaxRetriesExceeded, []))"
  by pat_completeness auto
termination
  by (relation "measure (\<lambda>(attempt, retries). Suc max_retries - retries)") auto

declare request_with_retries_loop.simps [simp del]

definition request_with_retries :: "session \<Rightarrow> request \<Rightarrow> (error + rr_result) \<times> int list" where
  "request_with_retries session req = request_with_retries_loop (session req) 0"

text \<open>Subscripting a decoded value: \<^verbatim>\<open>x['k']\<close> and \<^verbatim>\<open>x[0]\<close>.\<close>

fun py_getitem :: "json \<Rightarrow> string \<Rightarrow> error + json" where
  "py_getitem (JObj kvs) k = (case map_of kvs k of None \<Rightarrow> Inl (KeyError k) | Some v \<Rightarrow> Inr v)"
| "py_getitem v k = Inl TypeError"

fun py_getitem_0 :: "json \<Rightarrow> error + json" where
  "py_getitem_0 (JArr []) = Inl IndexError"
| "py_getitem_0 (JArr (x # xs)) = Inr x"
| "py_getitem_0 (JStr []) = Inl IndexError"
| "py_getitem_0 (JStr (c # cs)) = Inr (JStr [c])"
| "py_getitem_0 (JObj kvs) = Inl (KeyError ''0'')"
| "py_getitem_0 v = Inl TypeError"

text \<open>Iterating over a decoded value, as a comprehension does.\<close>

definition py_iter :: "json \<Rightarrow> error + json list" where
  "py_iter v = py_extend [] v"

section \<open>KeyLinkr.py: the callers of the executor\<close>

definition BASE_URL :: string where
  "BASE_URL = ''https://api.phrase.com/v2''"

text \<open>
  The tuple assignment \<^verbatim>\<open>response, data = await request_with_retries(...)\<close>: a lone
  response object cannot be unpacked, which is a TypeError at the assignment.
\<close>

definition unpack :: "error + rr_result \<Rightarrow> error + response \<times> json" where
  "unpack res =
     (case res of
        Inl e \<Rightarrow> Inl e
      | Inr (Pair response data) \<Rightarrow> Inr (response, data)
      | Inr (Bare response) \<Rightarrow> Inl TypeError)"

subsection \<open>get_all_keys (lines 124-162)\<close>

text \<open>
  The local variables of \<^verbatim>\<open>get_all_keys\<close>. The loop condition reads \<open>totalPage\<close>; the
  pagination header is stored in \<open>total_pages\<close>, which is unassigned (\<open>None\<close>) until a
  response carries the header.
\<close>

record get_all_keys_state =
  keys :: "json list"
  page :: int
  totalPage :: int
  total_pages :: "json option"

datatype 'a loop_step = Break 'a | Continue 'a

definition keys_request :: "string \<Rightarrow> int \<Rightarrow> int \<Rightarrow> string \<Rightarrow> request" where
  "keys_request project_id p per_page q_string =
     \<lparr>req_method = ''GET'',
      req_url = BASE_URL @ ''/projects/'' @ project_id @ ''/keys'',
      req_params = [(''page'', PInt p), (''per_page'', PInt per_page)]
                   @ (if q_string \<noteq> [] then [(''q'', PStr q_string)] else []),
      req_json = None\<rparr>"

text \<open>Lines 149-156.\<close>

definition read_pagination ::
  "pagination_header \<Rightarrow> get_all_keys_state \<Rightarrow> error + get_all_keys_state" where
  "read_pagination h s =
     (case h of
        NoPagination \<Rightarrow> Inr s
      | PaginationMalformed \<Rightarrow> Inl (SystemExit 1)
      | PaginationNoGet \<Rightarrow> Inl AttributeError
      | PaginationObject v \<Rightarrow>
          Inr (s\<lparr>total_pages := Some (case v of None \<Rightarrow> JNum 1 | Some n \<Rightarrow> n)\<rparr>))"

text \<open>One pass through the body of the loop, lines 134-161.\<close>

definition get_all_keys_body ::
  "session \<Rightarrow> string \<Rightarrow> int \<Rightarrow> string \<Rightarrow> get_all_keys_state
     \<Rightarrow> error + get_all_keys_state loop_step" where
  "get_all_keys_body session project_id per_page q_string s =
     (case unpack (fst (request_with_retries session
                          (keys_request project_id (page s) per_page q_string))) of
        Inl e \<Rightarrow> Inl e
      | Inr (response, data) \<Rightarrow>
          if status response \<noteq> 200 then Inl (SystemExit 1)
          else
            (case read_pagination (pagination response) s of
               Inl e \<Rightarrow> Inl e
             | Inr s' \<Rightarrow>
                 if \<not> truthy data then Inr (Break s')
                 else
                   (case py_extend (keys s') data of
                      Inl e \<Rightarrow> Inl e
                    | Inr ks \<Rightarrow> Inr (Continue (s'\<lparr>keys := ks, page := page s' + 1\<rparr>)))))"

lemma get_all_keys_body_Continue:
  assumes "get_all_keys_body session project_id per_page q_string s = Inr (Continue s')"
  shows "totalPage s' = totalPage s \<and> page s' = page s + 1"
  using assms
  by (auto simp: get_all_keys_body_def read_pagination_def
           split: sum.splits prod.splits if_splits pagination_header.splits)

text \<open>The loop \<^verbatim>\<open>while totalPage >= page\<close>.\<close>

function get_all_keys_loop ::
  "session \<Rightarrow> string \<Rightarrow> int \<Rightarrow> string \<Rightarrow> get_all_keys_state \<Rightarrow> error + get_all_keys_state" where
  "get_all_keys_loop session project_id per_page q_string s =
     (if totalPage s \<ge> page s then
        (case get_all_keys_body session project_id per_page q_string s of
           Inl e \<Rightarrow> Inl e
         | Inr (Break s') \<Rightarrow> Inr s'
         | Inr (Continue s') \<Rightarrow> get_all_keys_loop session project_id per_page q_string s')
      else Inr s)"
  by pat_completeness auto
termination
proof (relation "measure (\<lambda>(session, project_id, per_page, q_string, s).
                            nat (totalPage s + 1 - page s))")
  show "wf (measure (\<lambda>(session, project_id, per_page, q_string, s).
                       nat (totalPage s + 1 - page s)))"
    by simp
next
  fix session :: session and project_id q_string :: string and per_page :: int
    and s s' :: get_all_keys_state and x
  assume "page s \<le> totalPage s"
    and "get_all_keys_body session project_id per_page q_string s = Inr x"
    and "x = Continue s'"
  then have "totalPage s' = totalPage s \<and> page s' = page s + 1"
    using get_all_keys_body_Continue by blast
  with \<open>page s \<le> totalPage s\<close>
  show "((session, project_id, per_page, q_string, s'), (session, project_id, per_page, q_string, s))
          \<in> measure (\<lambda>(session, project_id, per_page, q_string, s).
                        nat (totalPage s + 1 - page s))"
    by simp
qed

declare get_all_keys_loop.simps [simp del]

definition get_all_keys :: "session \<Rightarrow> string \<Rightarrow> int \<Rightarrow> string \<Rightarrow> error + json list" where
  "get_all_keys session project_id per_page q_string =
     (case get_all_keys_loop session project_id per_page q_string
             \<lparr>keys = [], page = 1, totalPage = 1, total_pages = None\<rparr> of
        Inl e \<Rightarrow> Inl e
      | Inr s \<Rightarrow> Inr (keys s))"

subsection \<open>get_key_detail, get_linked_child_keys, create_key_link (lines 165-239)\<close>

text \<open>
  The semaphore of \<^verbatim>\<open>get_key_detail\<close> and \<^verbatim>\<open>create_key_link\<close> orders concurrent tasks and
  has no part in what one call computes; it is left out. What the functions print is
  returned as a list of messages.
\<close>

datatype message =
    Non200Response
  | ErrorFetchingDetail error
  | FailedToLink int bool
  | SuccessfullyLinked
  | ExceptionWhileLinking error

definition key_detail_request :: "string \<Rightarrow> string \<Rightarrow> request" where
  "key_detail_request project_id key_id =
     \<lparr>req_method = ''GET'',
      req_url = BASE_URL @ ''/projects/'' @ project_id @ ''/keys/'' @ key_id,
      req_params = [], req_json = None\<rparr>"

definition get_key_detail :: "session \<Rightarrow> string \<Rightarrow> string \<Rightarrow> json option \<times> message list" where
  "get_key_detail session project_id key_id =
     (case unpack (fst (request_with_retries session (key_detail_request project_id key_id))) of
        Inl e \<Rightarrow> (None, [ErrorFetchingDetail e])
      | Inr (response, data) \<Rightarrow>
          if status response = 200 then (Some data, []) else (None, [Non200Response]))"

definition key_links_request :: "string \<Rightarrow> string \<Rightarrow> string \<Rightarrow> string list option \<Rightarrow> request" where
  "key_links_request m parent_project_id parent_key_id payload =
     \<lparr>req_method = m,
      req_url = BASE_URL @ ''/projects/'' @ parent_project_id @ ''/keys/'' @ parent_key_id
                @ ''/key_links'',
      req_params = [], req_json = payload\<rparr>"

text \<open>\<^verbatim>\<open>[child_key['id'] for child_key in data.get('children', [])]\<close>, line 204.\<close>

fun child_ids :: "json list \<Rightarrow> error + json list" where
  "child_ids [] = Inr []"
| "child_ids (child_key # rest) =
     (case py_getitem child_key ''id'' of
        Inl e \<Rightarrow> Inl e
      | Inr i \<Rightarrow> (case child_ids rest of Inl e \<Rightarrow> Inl e | Inr is \<Rightarrow> Inr (i # is)))"

definition get_linked_child_keys :: "session \<Rightarrow> string \<Rightarrow> string \<Rightarrow> error + json list" where
  "get_linked_child_keys session parent_project_id parent_key_id =
     (case unpack (fst (request_with_retries session
                          (key_links_request ''GET'' parent_project_id parent_key_id None))) of
        Inl e \<Rightarrow> Inl e
      | Inr (response, data) \<Rightarrow>
          if status response = 400 then Inr []
          else if status response \<noteq> 200 then Inl (SystemExit 1)
          else
            (case data of
               JObj kvs \<Rightarrow>
                 (case py_iter (case map_of kvs ''children'' of None \<Rightarrow> JArr [] | Some c \<Rightarrow> c) of
                    Inl e \<Rightarrow> Inl e
                  | Inr children \<Rightarrow> child_ids children)
             | _ \<Rightarrow> Inl AttributeError))"

text \<open>
  The values the failure message of lines 224-228 formats:
  \<^verbatim>\<open>data['message']\<close> and \<^verbatim>\<open>data['errors'][0]['message']\<close>, in this order.
\<close>

definition failure_detail :: "json \<Rightarrow> error + json \<times> json" where
  "failure_detail data =
     (case py_getitem data ''message'' of
        Inl e \<Rightarrow> Inl e
      | Inr m \<Rightarrow>
          (case py_getitem data ''errors'' of
             Inl e \<Rightarrow> Inl e
           | Inr errs \<Rightarrow>
               (case py_getitem_0 errs of
                  Inl e \<Rightarrow> Inl e
                | Inr first \<Rightarrow>
                    (case py_getitem first ''message'' of
                       Inl e \<Rightarrow> Inl e
                     | Inr em \<Rightarrow> Inr (m, em)))))"

definition create_key_link :: "session \<Rightarrow> string \<Rightarrow> string \<Rightarrow> string list \<Rightarrow> message list" where
  "create_key_link session parent_project_id parent_key_id child_key_ids =
     (case unpack (fst (request_with_retries session
                          (key_links_request ''POST'' parent_project_id parent_key_id
                             (Some child_key_ids)))) of
        Inl e \<Rightarrow> [ExceptionWhileLinking e]
      | Inr (response, data) \<Rightarrow>
          if status response \<noteq> 201 then
            if truthy data then
              (case failure_detail data of
                 Inl e \<Rightarrow> [ExceptionWhileLinking e]
               | Inr d \<Rightarrow> [FailedToLink (status response) True])
            else [FailedToLink (status response) False]
          else [SuccessfullyLinked])"

section \<open>KeyLinkr.py: scheduling the key links (main, lines 266-315)\<close>

text \<open>
  A key object of the API, read through typed fields: \<open>key_id\<close> and \<open>key_name\<close> are the
  texts under \<^verbatim>\<open>'id'\<close> and \<^verbatim>\<open>'name'\<close>, \<open>None\<close> when the object has no such entry
  (\<^verbatim>\<open>key.get(...)\<close> is then None and \<^verbatim>\<open>key[...]\<close> a KeyError). Identifiers and names are
  texts, as the API delivers them.
\<close>

record key =
  key_id :: "string option"
  key_name :: "string option"

text \<open>
  \<open>linked_keys_dict\<close> maps a parent key id (\<^verbatim>\<open>parent_key.get("id")\<close>, possibly None) to
  the ids of its linked children; \<open>key_links_map\<close> maps a parent key id to the child ids
  to link. Both are dicts, kept as association lists in insertion order.
\<close>

type_synonym linked_keys = "(string option \<times> string list) list"

type_synonym key_links = "(string \<times> string list) list"

text \<open>
  Lines 266-271. \<open>links_of\<close> stands for \<^verbatim>\<open>get_linked_child_keys(session,
  parent_project_id, parent_key_id)\<close> with its result read as a list of texts.
\<close>

fun build_linked_keys_dict ::
  "(string option \<Rightarrow> error + string list) \<Rightarrow> key list \<Rightarrow> linked_keys \<Rightarrow> error + linked_keys" where
  "build_linked_keys_dict links_of [] linked_keys_dict = Inr linked_keys_dict"
| "build_linked_keys_dict links_of (parent_key # rest) linked_keys_dict =
     (case links_of (key_id parent_key) of
        Inl e \<Rightarrow> Inl e
      | Inr linked_keys \<Rightarrow>
          build_linked_keys_dict links_of rest
            (if linked_keys \<noteq> []
             then AList.update (key_id parent_key) linked_keys linked_keys_dict
             else linked_keys_dict))"






text \<open>What lines 305-312 print.\<close>

datatype link_message = AlreadyLinked string | AddedForLinking string

record plan =
  key_links_map :: key_links
  printed :: "link_message list"

text \<open>Line 306: the child id occurs among the children of some parent of \<open>linked_keys_dict\<close>.\<close>

definition linked_anywhere :: "linked_keys \<Rightarrow> string \<Rightarrow> bool" where
  "linked_anywhere linked_keys_dict child_key_id =
     list_ex (\<lambda>entry. child_key_id \<in> set (snd entry)) linked_keys_dict"








section \<open>remove_excess_users.py\<close>

text \<open>
  A user object of the API. \<open>user_id\<close> is \<open>None\<close> when the object has no \<^verbatim>\<open>'id'\<close>. The
  field \<open>created_at\<close> is \<^verbatim>\<open>u['created_at']\<close> under
  \<^verbatim>\<open>datetime.strptime(..., '%Y-%m-%dT%H:%M:%SZ')\<close>: the key is absent (KeyError), the
  text does not parse (ValueError), or it is a point in time, in seconds; datetimes
  compare as these numbers do.
\<close>

datatype created_at_field = CreatedMissing | CreatedMalformed | CreatedAt int

record user =
  user_id :: "string option"
  created_at :: created_at_field

text \<open>A reply of \<^verbatim>\<open>requests.get\<close>: the status code and the decoded body.\<close>

record 'a reply =
  status_code :: int
  decoded :: 'a

text \<open>The API as the script sees it: the project listing and the users of each project.\<close>

record api =
  projects_reply :: "project list reply"
  users_reply :: "string \<Rightarrow> user list reply"

definition USER_LIMIT :: nat where
  "USER_LIMIT = 150"

text \<open>
  What the run does, in order: the lines it prints and the calls of \<^verbatim>\<open>remove_user\<close>
  (each is one DELETE request; the line \<^verbatim>\<open>remove_user\<close> prints about the reply is
  left out).
\<close>

datatype event =
    NoProjectsFound
  | NoUsersFound string
  | ErrorSortingUsers string string
  | RemovingUsers int string
  | RemoveUser string string
  | ErrorRemovingUser string string
  | WithinLimit string

definition get_projects :: "api \<Rightarrow> project list" where
  "get_projects a =
     (if status_code (projects_reply a) = 200 then decoded (projects_reply a) else [])"

definition get_users :: "api \<Rightarrow> string \<Rightarrow> user list" where
  "get_users a project_id =
     (if status_code (users_reply a project_id) = 200 then decoded (users_reply a project_id)
      else [])"

text \<open>\<^verbatim>\<open>datetime.strptime(u['created_at'], ...)\<close>, as lines 62 and 63 evaluate it.\<close>

definition parse_created_at :: "user \<Rightarrow> error + int" where
  "parse_created_at u =
     (case created_at u of
        CreatedMissing \<Rightarrow> Inl (KeyError ''created_at'')
      | CreatedMalformed \<Rightarrow> Inl ValueError
      | CreatedAt t \<Rightarrow> Inr t)"

text \<open>Line 62: the comprehension stops at the first user whose timestamp raises.\<close>

fun filter_users :: "int \<Rightarrow> user list \<Rightarrow> error + user list" where
  "filter_users filter_timestamp [] = Inr []"
| "filter_users filter_timestamp (u # us) =
     (case parse_created_at u of
        Inl e \<Rightarrow> Inl e
      | Inr t \<Rightarrow>
          (case filter_users filter_timestamp us of
             Inl e \<Rightarrow> Inl e
           | Inr rest \<Rightarrow> Inr (if t > filter_timestamp then u # rest else rest)))"

text \<open>
  Line 63: \<^verbatim>\<open>users.sort(key=..., reverse=True)\<close> computes the key of every user, in
  order, and then sorts by descending key, keeping users of equal key in their order.
\<close>

fun sort_keys :: "user list \<Rightarrow> error + int list" where
  "sort_keys [] = Inr []"
| "sort_keys (u # us) =
     (case parse_created_at u of
        Inl e \<Rightarrow> Inl e
      | Inr t \<Rightarrow> (case sort_keys us of Inl e \<Rightarrow> Inl e | Inr ts \<Rightarrow> Inr (t # ts)))"

definition sort_users :: "user list \<Rightarrow> error + user list" where
  "sort_users users =
     (case sort_keys users of
        Inl e \<Rightarrow> Inl e
      | Inr ts \<Rightarrow> Inr (map snd (sort_key (\<lambda>p. - fst p) (zip ts users))))"

text \<open>Lines 71-75: one \<^verbatim>\<open>remove_user\<close> per selected user; a missing \<^verbatim>\<open>'id'\<close> is caught.\<close>

fun remove_users :: "string \<Rightarrow> user list \<Rightarrow> event list" where
  "remove_users project_id [] = []"
| "remove_users project_id (u # us) =
     (case user_id u of
        None \<Rightarrow> ErrorRemovingUser project_id ''id''
      | Some uid \<Rightarrow> RemoveUser project_id uid) # remove_users project_id us"

text \<open>
  Lines 55-77, the body of the loop over the projects. Only KeyError is caught around
  lines 62-63; it ends the work on this project.
\<close>

definition process_project :: "api \<Rightarrow> int \<Rightarrow> project \<Rightarrow> error + event list" where
  "process_project a filter_timestamp p =
     (case proj_id p of
        None \<Rightarrow> Inl (KeyError ''id'')
      | Some project_id \<Rightarrow>
          (let users = get_users a project_id in
           if users = [] then Inr [NoUsersFound project_id]
           else
             (case (case filter_users filter_timestamp users of
                      Inl e \<Rightarrow> Inl e
                    | Inr filtered \<Rightarrow> sort_users filtered) of
                Inl (KeyError k) \<Rightarrow> Inr [ErrorSortingUsers project_id k]
              | Inl e \<Rightarrow> Inl e
              | Inr users \<Rightarrow>
                  (let excess_user_count = int (length users) - int USER_LIMIT in
                   if excess_user_count > 0 then
                     Inr (RemovingUsers excess_user_count project_id
                          # remove_users project_id (take (nat excess_user_count) users))
                   else Inr [WithinLimit project_id]))))"

text \<open>
  The loop over the projects. An exception that is not caught ends the run; the result
  keeps what was done before it.
\<close>

fun process_projects :: "api \<Rightarrow> int \<Rightarrow> project list \<Rightarrow> event list \<times> error option" where
  "process_projects a filter_timestamp [] = ([], None)"
| "process_projects a filter_timestamp (p # ps) =
     (case process_project a filter_timestamp p of
        Inl e \<Rightarrow> ([], Some e)
      | Inr evs \<Rightarrow>
          (case process_projects a filter_timestamp ps of
             (later, r) \<Rightarrow> (evs @ later, r)))"

definition remove_excess_users :: "api \<Rightarrow> int \<Rightarrow> event list \<times> error option" where
  "remove_excess_users a filter_timestamp =
     (let projects = get_projects a in
      if projects = [] then ([NoProjectsFound], None)
      else process_projects a filter_timestamp projects)"

section \<open>The bulk import (Import tool.py)\<close>

definition CSV_FIELDS :: "(string \<times> string list) list" where
  "CSV_FIELDS =
     [(''domain'', [''name'', ''timezone'']),
      (''subdomain'', [''name'', ''parent_domain_id'']),
      (''client'', [''name'']),
      (''business_unit'', [''name'', ''client_id''])]"

text \<open>A row as \<^verbatim>\<open>process_csv\<close> yields it: a dict from column names to cell texts.\<close>

type_synonym row = "(string \<times> string) list"

text \<open>\<^verbatim>\<open>str.lower\<close> on the letters A to Z.\<close>

definition lower_char :: "char \<Rightarrow> char" where
  "lower_char c =
     (if 65 \<le> (of_char c :: nat) \<and> (of_char c :: nat) \<le> 90
      then char_of ((of_char c :: nat) + 32) else c)"

definition lower :: "string \<Rightarrow> string" where
  "lower s = map lower_char s"

text \<open>
  What the run logs (\<^verbatim>\<open>logging.warning\<close>, \<^verbatim>\<open>logging.error\<close>, \<^verbatim>\<open>logging.debug\<close>).
\<close>

datatype import_log =
    MissingFields "string list" "string option"
  | InvalidType "string option"
  | RowError error

text \<open>
  The counters of \<open>stats\<close>, the \<^verbatim>\<open>create_entity\<close> calls issued so far and the log.
\<close>

record import_state =
  success :: nat
  errors :: nat
  skipped :: nat
  create_calls :: "(string \<times> row) list"
  logged :: "import_log list"

text \<open>Line 105: the required fields that are absent or empty in the row.\<close>

definition missing_fields :: "string list \<Rightarrow> row \<Rightarrow> string list" where
  "missing_fields required r =
     filter (\<lambda>field. case map_of r field of None \<Rightarrow> True | Some v \<Rightarrow> v = []) required"

text \<open>
  \<^verbatim>\<open>validate_row\<close>, lines 102-109: the verdict and what it logs. An entity type outside
  \<open>CSV_FIELDS\<close> is a KeyError at line 104.
\<close>

definition validate_row :: "string \<Rightarrow> row \<Rightarrow> error + bool \<times> import_log list" where
  "validate_row entity_type r =
     (case map_of CSV_FIELDS entity_type of
        None \<Rightarrow> Inl (KeyError entity_type)
      | Some required \<Rightarrow>
          (let missing = missing_fields required r in
           if missing \<noteq> [] then Inr (False, [MissingFields missing (map_of r ''name'')])
           else Inr (True, [])))"

text \<open>
  The reply to the POST of \<^verbatim>\<open>create_entity\<close>: status 409, a status on which
  \<^verbatim>\<open>raise_for_status\<close> raises (or a failed request), or a decoded body.
\<close>

datatype post_reply = Conflict | Failed | Body json

definition create_entity :: "(string \<Rightarrow> row \<Rightarrow> post_reply) \<Rightarrow> string \<Rightarrow> row \<Rightarrow> error + json" where
  "create_entity post entity_type d =
     (case post entity_type d of
        Conflict \<Rightarrow> Inr (JObj [(''status'', JStr ''conflict'')])
      | Failed \<Rightarrow> Inl HTTPError
      | Body j \<Rightarrow> Inr j)"

text \<open>\<^verbatim>\<open>result.get('status')\<close>: only a dict has \<^verbatim>\<open>get\<close>.\<close>

definition py_get :: "json \<Rightarrow> string \<Rightarrow> error + json option" where
  "py_get v k = (case v of JObj kvs \<Rightarrow> Inr (map_of kvs k) | _ \<Rightarrow> Inl AttributeError)"

text \<open>
  Lines 143-169, the body of the loop over the rows. Every exception raised inside the
  \<^verbatim>\<open>try\<close> is caught at line 166 and counted as an error.
\<close>

definition import_row ::
  "(string \<Rightarrow> row \<Rightarrow> post_reply) \<Rightarrow> bool \<Rightarrow> row \<Rightarrow> import_state \<Rightarrow> import_state" where
  "import_row post dry_run r st =
     (let entity_type = lower (case map_of r ''type'' of None \<Rightarrow> [] | Some t \<Rightarrow> t) in
      if entity_type = [] \<or> map_of CSV_FIELDS entity_type = None then
        st\<lparr>errors := errors st + 1, logged := logged st @ [InvalidType (map_of r ''type'')]\<rparr>
      else
        (case validate_row entity_type r of
           Inl e \<Rightarrow> st\<lparr>errors := errors st + 1, logged := logged st @ [RowError e]\<rparr>
         | Inr (valid, lines) \<Rightarrow>
             if \<not> valid then st\<lparr>errors := errors st + 1, logged := logged st @ lines\<rparr>
             else if dry_run then st\<lparr>success := success st + 1\<rparr>
             else
               (let st' = st\<lparr>create_calls := create_calls st @ [(entity_type, r)]\<rparr> in
                case create_entity post entity_type r of
                  Inl e \<Rightarrow> st'\<lparr>errors := errors st' + 1, logged := logged st' @ [RowError e]\<rparr>
                | Inr result \<Rightarrow>
                    (case py_get result ''status'' of
                       Inl e \<Rightarrow> st'\<lparr>errors := errors st' + 1, logged := logged st' @ [RowError e]\<rparr>
                     | Inr s \<Rightarrow>
                         if s = Some (JStr ''conflict'') then st'\<lparr>skipped := skipped st' + 1\<rparr>
                         else if truthy result then st'\<lparr>success := success st' + 1\<rparr>
                         else st'\<lparr>skipped := skipped st' + 1\<rparr>))))"

text \<open>
  \<^verbatim>\<open>bulk_import\<close>, lines 131-180: the rows in order, from counters at zero. The client is
  authenticated before the loop and is given here by the replies to its POSTs.
\<close>

fun import_rows ::
  "(string \<Rightarrow> row \<Rightarrow> post_reply) \<Rightarrow> bool \<Rightarrow> row list \<Rightarrow> import_state \<Rightarrow> import_state" where
  "import_rows post dry_run [] st = st"
| "import_rows post dry_run (r # rest) st =
     import_rows post dry_run rest (import_row post dry_run r st)"

definition bulk_import :: "(string \<Rightarrow> row \<Rightarrow> post_reply) \<Rightarrow> bool \<Rightarrow> row list \<Rightarrow> import_state" where
  "bulk_import post dry_run rows =
     import_rows post dry_run rows
       \<lparr>success = 0, errors = 0, skipped = 0, create_calls = [], logged = []\<rparr>"

section \<open>Sessions and vocabulary used in the statements\<close>

text \<open>An attempt is retried when it raised ClientConnectionError or was answered 429.\<close>

definition retried :: "outcome \<Rightarrow> bool" where
  "retried out = (case out of Raises_ClientConnectionError \<Rightarrow> True | Responds r \<Rightarrow> status r = 429)"

text \<open>The argument of \<^verbatim>\<open>asyncio.sleep\<close> after a retried attempt at counter \<open>k\<close>.\<close>

definition delay_of :: "outcome \<Rightarrow> nat \<Rightarrow> int" where
  "delay_of out k = (case out of Raises_ClientConnectionError \<Rightarrow> 2 ^ k | Responds r \<Rightarrow> delay_429 r k)"

text \<open>A rate-limited response, and sessions that answer every attempt with it.\<close>

definition rate_limited :: "retry_after_header \<Rightarrow> response" where
  "rate_limited h = \<lparr>status = 429, retry_after = h, pagination = NoPagination, body = Json JNull\<rparr>"

definition always_429 :: session where
  "always_429 req k = Responds (rate_limited NoRetryAfter)"

definition retry_after_5 :: session where
  "retry_after_5 req k = Responds (rate_limited (RetryAfterInt 5))"

text \<open>
  A synthetic listing of \<open>items\<close>: the request for page \<open>p\<close> with page size \<open>per_page\<close> is
  answered 200 with the \<open>p\<close>-th slice of the items, and, when \<open>with_header\<close> holds, with
  the total number of pages in the pagination header.
\<close>

definition paged_listing :: "bool \<Rightarrow> json list \<Rightarrow> session" where
  "paged_listing with_header items req k =
     (case (map_of (req_params req) ''page'', map_of (req_params req) ''per_page'') of
        (Some (PInt p), Some (PInt per_page)) \<Rightarrow>
          Responds
            \<lparr>status = 200,
             retry_after = NoRetryAfter,
             pagination =
               (if with_header
                then PaginationObject (Some (JNum ((int (length items) + per_page - 1) div per_page)))
                else NoPagination),
             body = Json (JArr (take (nat per_page) (drop (nat ((p - 1) * per_page)) items)))\<rparr>
      | _ \<Rightarrow>
          Responds \<lparr>status = 400, retry_after = NoRetryAfter, pagination = NoPagination,
                    body = BadJson\<rparr>)"






text \<open>No task of a run names a child that the observed links hold.\<close>

definition plan_ok :: "linked_keys \<Rightarrow> plan \<Rightarrow> bool" where
  "plan_ok linked_keys_dict st =
     list_all (\<lambda>entry. list_all (\<lambda>x. \<not> linked_anywhere linked_keys_dict x) (snd entry)) (key_links_map st)"

text \<open>
  Vocabulary for the quota pruning. \<open>dated\<close> holds of a user whose creation time is
  present and parses, and \<open>time_of\<close> is that time (it is only used of dated users).
\<close>

definition time_of :: "user \<Rightarrow> int" where
  "time_of u = (case created_at u of CreatedAt t \<Rightarrow> t | _ \<Rightarrow> 0)"

definition dated :: "user \<Rightarrow> bool" where
  "dated u = (case created_at u of CreatedAt t \<Rightarrow> True | _ \<Rightarrow> False)"

text \<open>
  The users created strictly after the cutoff, sorted by descending creation time
  (users of equal time in their given order), and the excess over the limit taken from
  the front of that list.
\<close>

definition newest_first :: "int \<Rightarrow> user list \<Rightarrow> user list" where
  "newest_first filter_timestamp users =
     sort_key (\<lambda>u. - time_of u) (filter (\<lambda>u. filter_timestamp < time_of u) users)"

definition selected_for_removal :: "int \<Rightarrow> user list \<Rightarrow> user list" where
  "selected_for_removal filter_timestamp users =
     take (length (newest_first filter_timestamp users) - USER_LIMIT)
       (newest_first filter_timestamp users)"

text \<open>
  The \<open>i\<close>-th sample user, created at time \<open>i\<close>; an API with the single project \<open>p\<close> (any
  project id is answered with the same users); the sample users 1 to 165; a user
  without a creation time and a user without an id.
\<close>

definition mk_user :: "nat \<Rightarrow> user" where
  "mk_user i = \<lparr>user_id = Some (replicate i (CHR ''u'')), created_at = CreatedAt (int i)\<rparr>"

definition one_project :: "user list \<Rightarrow> api" where
  "one_project users =
     \<lparr>projects_reply = \<lparr>status_code = 200, decoded = [\<lparr>proj_id = Some ''p''\<rparr>]\<rparr>,
      users_reply = (\<lambda>project_id. \<lparr>status_code = 200, decoded = users\<rparr>)\<rparr>"

definition many_users :: "user list" where
  "many_users = map mk_user [1..<166]"




section \<open>Properties of the request executor\<close>

lemma loop_retry:
  assumes "retries < max_retries" "retried (attempt retries)"
  shows "request_with_retries_loop attempt retries =
           (fst (request_with_retries_loop attempt (Suc retries)),
            delay_of (attempt retries) retries # snd (request_with_retries_loop attempt (Suc retries)))"
  using assms
  by (subst request_with_retries_loop.simps)
     (auto simp: retried_def delay_of_def split: outcome.splits prod.splits)

lemma loop_final_429:
  assumes "attempt max_retries = Responds r" "status r = 429"
  shows "request_with_retries_loop attempt max_retries = (Inr (Bare r), [])"
  using assms by (subst request_with_retries_loop.simps) simp

lemma loop_prefix:
  assumes "\<forall>j<k. retried (attempt j)" "k \<le> max_retries"
  shows "request_with_retries_loop attempt 0 =
           (fst (request_with_retries_loop attempt k),
            map (\<lambda>j. delay_of (attempt j) j) [0..<k] @ snd (request_with_retries_loop attempt k))"
  using assms
proof (induction k)
  case 0
  then show ?case by simp
next
  case (Suc k)
  then have "request_with_retries_loop attempt k =
           (fst (request_with_retries_loop attempt (Suc k)),
            delay_of (attempt k) k # snd (request_with_retries_loop attempt (Suc k)))"
    by (intro loop_retry) auto
  with Suc show ?case by simp
qed

lemma loop_immediate:
  assumes "attempt 0 = Responds r" "status r \<noteq> 429" "body r = Json d"
  shows "request_with_retries_loop attempt 0 = (Inr (Pair r d), [])"
  using assms by (subst request_with_retries_loop.simps) simp

text \<open>The \<^verbatim>\<open>raise\<close> of line 81, after the loop, is never reached.\<close>

lemma exhaustion_error_unreachable:
  "retries \<le> max_retries \<Longrightarrow>
     fst (request_with_retries_loop attempt retries) \<noteq> Inl MaxRetriesExceeded"
proof (induction attempt retries rule: request_with_retries_loop.induct)
  case (1 attempt retries)
  show ?case
  proof (cases "retries < max_retries")
    case True
    with "1.IH" have "fst (request_with_retries_loop attempt (retries + 1)) \<noteq> Inl MaxRetriesExceeded"
      if "attempt retries = Responds r \<and> status r = 429 \<or> attempt retries = Raises_ClientConnectionError" for r
      using that "1.prems" by (cases "attempt retries") auto
    with True "1.prems" show ?thesis
      by (subst request_with_retries_loop.simps)
         (auto split: outcome.splits body.splits prod.splits)
  next
    case False
    with "1.prems" show ?thesis
      by (subst request_with_retries_loop.simps) (auto split: outcome.splits body.splits)
  qed
qed

text \<open>
  Claim C2. When every attempt is answered 429, the executor should give up with an
  exhaustion error. The code makes eleven attempts (retry counters 0 to 10), sleeps ten
  times, and then returns the last response object alone through line 62: no exception
  is raised, and \<open>MaxRetriesExceeded\<close> of line 81 is never reached.
\<close>

theorem exhausted_429_returns_bare_response:
  "request_with_retries always_429 req =
     (Inr (Bare (rate_limited NoRetryAfter)), [1, 2, 4, 8, 16, 32, 64, 128, 256, 512])"
proof -
  have "\<forall>j<max_retries. retried (always_429 req j)"
    by (simp add: retried_def always_429_def rate_limited_def)
  then have "request_with_retries_loop (always_429 req) 0 =
       (fst (request_with_retries_loop (always_429 req) max_retries),
        map (\<lambda>j. delay_of (always_429 req j) j) [0..<max_retries]
          @ snd (request_with_retries_loop (always_429 req) max_retries))"
    by (rule loop_prefix) simp
  moreover have "request_with_retries_loop (always_429 req) max_retries
                   = (Inr (Bare (rate_limited NoRetryAfter)), [])"
    by (rule loop_final_429) (simp_all add: always_429_def rate_limited_def)
  moreover have "map (\<lambda>j. delay_of (always_429 req j) j) [0..<max_retries]
                   = [1, 2, 4, 8, 16, 32, 64, 128, 256, 512]"
    by (simp add: max_retries_def delay_of_def always_429_def rate_limited_def delay_429_def upt_rec)
  ultimately show ?thesis
    by (simp add: request_with_retries_def)
qed

text \<open>
  Claim C4. Let the attempts before attempt \<open>k\<close> be retried ones and attempt \<open>k\<close>, below
  the maximum retry count, be answered 429. Then the executor sleeps a \<open>k\<close>-th time
  (counted from 0), and the delay it passes to \<^verbatim>\<open>asyncio.sleep\<close> is the integer of the
  Retry-After header when the header holds one, and \<open>2 ^ k\<close> when the header is absent
  or not an integer.
\<close>

theorem backoff_delay:
  assumes "\<forall>j<k. retried (session req j)"
    and "session req k = Responds r" and "status r = 429" and "k < max_retries"
  shows "k < length (snd (request_with_retries session req)) \<and>
         snd (request_with_retries session req) ! k =
           (case retry_after r of RetryAfterInt h \<Rightarrow> h | _ \<Rightarrow> 2 ^ k)"
proof -
  let ?a = "session req"
  have "\<forall>j<Suc k. retried (?a j)"
    using assms by (auto simp: retried_def less_Suc_eq)
  then have "request_with_retries_loop ?a 0 =
       (fst (request_with_retries_loop ?a (Suc k)),
        map (\<lambda>j. delay_of (?a j) j) [0..<Suc k] @ snd (request_with_retries_loop ?a (Suc k)))"
    using assms(4) by (intro loop_prefix) auto
  then have sl: "snd (request_with_retries session req) =
        map (\<lambda>j. delay_of (?a j) j) [0..<k] @ delay_of (?a k) k # snd (request_with_retries_loop ?a (Suc k))"
    by (simp add: request_with_retries_def)
  have "delay_of (?a k) k = (case retry_after r of RetryAfterInt h \<Rightarrow> h | _ \<Rightarrow> 2 ^ k)"
    using assms(2) by (simp add: delay_of_def delay_429_def split: retry_after_header.splits)
  with sl show ?thesis
    by (simp add: nth_append)
qed

theorem backoff_delay_witness:
  "(0 < length (snd (request_with_retries retry_after_5 (keys_request ''p'' 1 100 []))) \<and>
    snd (request_with_retries retry_after_5 (keys_request ''p'' 1 100 [])) ! 0 = 5) \<and>
   (3 < length (snd (request_with_retries always_429 (keys_request ''p'' 1 100 []))) \<and>
    snd (request_with_retries always_429 (keys_request ''p'' 1 100 [])) ! 3 = 8)"
proof -
  have a: "\<forall>j<k. retried (retry_after_5 req j)" for req k
    by (simp add: retried_def retry_after_5_def rate_limited_def)
  have b: "\<forall>j<k. retried (always_429 req j)" for req k
    by (simp add: retried_def always_429_def rate_limited_def)
  have c: "(3::nat) < max_retries" "(0::nat) < max_retries"
    by (simp_all add: max_retries_def)
  show ?thesis
    using backoff_delay [where session = retry_after_5 and req = "keys_request ''p'' 1 100 []"
        and k = 0 and r = "rate_limited (RetryAfterInt 5)", OF a]
      backoff_delay [where session = always_429 and req = "keys_request ''p'' 1 100 []"
        and k = 3 and r = "rate_limited NoRetryAfter", OF b] c
    by (simp add: retry_after_5_def always_429_def rate_limited_def)
qed

section \<open>Properties of the paginator and of the other callers\<close>

lemma paged_listing_first_request:
  "unpack (fst (request_with_retries (paged_listing h items) (keys_request project_id 1 per_page q_string)))
     = Inr (\<lparr>status = 200,
             retry_after = NoRetryAfter,
             pagination =
               (if h
                then PaginationObject (Some (JNum ((int (length items) + per_page - 1) div per_page)))
                else NoPagination),
             body = Json (JArr (take (nat per_page) items))\<rparr>, JArr (take (nat per_page) items))"
proof -
  let ?r = "\<lparr>status = 200,
             retry_after = NoRetryAfter,
             pagination =
               (if h
                then PaginationObject (Some (JNum ((int (length items) + per_page - 1) div per_page)))
                else NoPagination),
             body = Json (JArr (take (nat per_page) items))\<rparr>"
  have "paged_listing h items (keys_request project_id 1 per_page q_string) 0 = Responds ?r"
    by (simp add: paged_listing_def keys_request_def)
  then have "request_with_retries_loop (paged_listing h items (keys_request project_id 1 per_page q_string)) 0
        = (Inr (Pair ?r (JArr (take (nat per_page) items))), [])"
    by (rule loop_immediate) simp_all
  then show ?thesis
    by (simp add: request_with_retries_def unpack_def)
qed

lemma get_all_keys_first_page_only:
  "get_all_keys (paged_listing h items) project_id per_page q_string = Inr (take (nat per_page) items)"
proof (cases "take (nat per_page) items = []")
  case True
  then show ?thesis
    by (simp add: get_all_keys_def get_all_keys_loop.simps [of _ _ _ _ "\<lparr>keys = [], page = 1, totalPage = 1, total_pages = None\<rparr>"]
          get_all_keys_body_def paged_listing_first_request read_pagination_def)
next
  case False
  then show ?thesis
    apply (simp add: get_all_keys_def get_all_keys_loop.simps [of _ _ _ _ "\<lparr>keys = [], page = 1, totalPage = 1, total_pages = None\<rparr>"]
          get_all_keys_body_def paged_listing_first_request read_pagination_def)
    apply (subst get_all_keys_loop.simps, simp)+
    done
qed

text \<open>
  Claim C1. A traversal of a synthetic listing should yield every item once. On three
  items served in pages of two, \<^verbatim>\<open>get_all_keys\<close> returns the first page only, with the
  pagination header and without it: the loop condition reads \<open>totalPage\<close>, which stays
  1, while the header's page count is stored in \<open>total_pages\<close>.
\<close>

theorem get_all_keys_stops_after_first_page:
  "get_all_keys (paged_listing True [JStr ''k1'', JStr ''k2'', JStr ''k3'']) ''p'' 2 [] = Inr [JStr ''k1'', JStr ''k2'']
   \<and> get_all_keys (paged_listing False [JStr ''k1'', JStr ''k2'', JStr ''k3'']) ''p'' 2 [] = Inr [JStr ''k1'', JStr ''k2'']"
  by (simp add: get_all_keys_first_page_only)

text \<open>
  Claim C9. When the attempts before the last permitted one are retried and the last
  permitted attempt (retry counter \<open>max_retries\<close>) is answered 429, the executor returns
  the response object alone. Unpacking it into two values is a TypeError: it ends
  \<^verbatim>\<open>get_all_keys\<close> and \<^verbatim>\<open>get_linked_child_keys\<close>, and it is what the handlers of
  \<^verbatim>\<open>get_key_detail\<close> and \<^verbatim>\<open>create_key_link\<close> catch and print.
\<close>

theorem bare_response_breaks_callers:
  assumes "\<forall>k<max_retries. retried (session req k)"
    and "session req max_retries = Responds r" and "status r = 429"
  shows "fst (request_with_retries session req) = Inr (Bare r)
       \<and> unpack (fst (request_with_retries session req)) = Inl TypeError
       \<and> (req = keys_request project_id 1 per_page q_string \<longrightarrow>
            get_all_keys session project_id per_page q_string = Inl TypeError)
       \<and> (req = key_detail_request project_id kid \<longrightarrow>
            get_key_detail session project_id kid = (None, [ErrorFetchingDetail TypeError]))
       \<and> (req = key_links_request ''GET'' project_id kid None \<longrightarrow>
            get_linked_child_keys session project_id kid = Inl TypeError)
       \<and> (req = key_links_request ''POST'' project_id kid (Some child_key_ids) \<longrightarrow>
            create_key_link session project_id kid child_key_ids
              = [ExceptionWhileLinking TypeError])"
proof -
  have "request_with_retries_loop (session req) 0 =
       (fst (request_with_retries_loop (session req) max_retries),
        map (\<lambda>j. delay_of (session req j) j) [0..<max_retries]
          @ snd (request_with_retries_loop (session req) max_retries))"
    using assms(1) by (rule loop_prefix) simp
  moreover have "request_with_retries_loop (session req) max_retries = (Inr (Bare r), [])"
    using assms(2,3) by (rule loop_final_429)
  ultimately have bare: "fst (request_with_retries session req) = Inr (Bare r)"
    by (simp add: request_with_retries_def)
  then have un: "unpack (fst (request_with_retries session req)) = Inl TypeError"
    by (simp add: unpack_def)
  have "get_all_keys session project_id per_page q_string = Inl TypeError"
    if "req = keys_request project_id 1 per_page q_string"
    using un that
    by (simp add: get_all_keys_def get_all_keys_body_def
          get_all_keys_loop.simps [of _ _ _ _ "\<lparr>keys = [], page = 1, totalPage = 1, total_pages = None\<rparr>"])
  moreover have "get_key_detail session project_id kid = (None, [ErrorFetchingDetail TypeError])"
    if "req = key_detail_request project_id kid"
    using un that by (simp add: get_key_detail_def)
  moreover have "get_linked_child_keys session project_id kid = Inl TypeError"
    if "req = key_links_request ''GET'' project_id kid None"
    using un that by (simp add: get_linked_child_keys_def)
  moreover have "create_key_link session project_id kid child_key_ids
              = [ExceptionWhileLinking TypeError]"
    if "req = key_links_request ''POST'' project_id kid (Some child_key_ids)"
    using un that by (simp add: create_key_link_def)
  ultimately show ?thesis
    using bare un by blast
qed

theorem bare_response_breaks_callers_witness:
  "fst (request_with_retries always_429 (keys_request ''p'' 1 100 [])) = Inr (Bare (rate_limited NoRetryAfter))
   \<and> get_all_keys always_429 ''p'' 100 [] = Inl TypeError
   \<and> get_key_detail always_429 ''p'' ''k'' = (None, [ErrorFetchingDetail TypeError])
   \<and> get_linked_child_keys always_429 ''p'' ''k'' = Inl TypeError
   \<and> create_key_link always_429 ''p'' ''k'' [''c''] = [ExceptionWhileLinking TypeError]"
proof -
  have a: "\<forall>k<max_retries. retried (always_429 req k)" for req
    by (simp add: retried_def always_429_def rate_limited_def)
  have b: "always_429 req max_retries = Responds (rate_limited NoRetryAfter)" for req
    by (simp add: always_429_def)
  have c: "status (rate_limited NoRetryAfter) = 429"
    by (simp add: rate_limited_def)
  show ?thesis
    using bare_response_breaks_callers [where session = always_429 and r = "rate_limited NoRetryAfter"
        and req = "keys_request ''p'' 1 100 []" and project_id = "''p''" and per_page = 100
        and q_string = "[]", OF a b c]
      bare_response_breaks_callers [where session = always_429 and r = "rate_limited NoRetryAfter"
        and req = "key_detail_request ''p'' ''k''" and project_id = "''p''" and kid = "''k''",
        OF a b c]
      bare_response_breaks_callers [where session = always_429 and r = "rate_limited NoRetryAfter"
        and req = "key_links_request ''GET'' ''p'' ''k'' None" and project_id = "''p''"
        and kid = "''k''", OF a b c]
      bare_response_breaks_callers [where session = always_429 and r = "rate_limited NoRetryAfter"
        and req = "key_links_request ''POST'' ''p'' ''k'' (Some [''c''])" and project_id = "''p''"
        and kid = "''k''" and child_key_ids = "[''c'']", OF a b c]
    by simp
qed

section \<open>Properties of the link scheduling\<close>





lemma plan_ok_printed [simp]: "plan_ok l (st\<lparr>printed := pr\<rparr>) = plan_ok l st"
  by (simp add: plan_ok_def)









section \<open>Properties of the quota pruning\<close>

subsection \<open>What lines 62-63 compute on dated users\<close>

lemma parse_created_at_dated: "dated u \<Longrightarrow> parse_created_at u = Inr (time_of u)"
  by (cases "created_at u") (simp_all add: dated_def parse_created_at_def time_of_def)

lemma filter_users_dated:
  "list_all dated us \<Longrightarrow> filter_users ts us = Inr (filter (\<lambda>u. ts < time_of u) us)"
  by (induction us) (simp_all add: parse_created_at_dated)

lemma sort_keys_dated: "list_all dated us \<Longrightarrow> sort_keys us = Inr (map time_of us)"
  by (induction us) (simp_all add: parse_created_at_dated)

lemma insort_key_decorated:
  assumes "\<forall>p\<in>set ps. fst p = f (snd p)"
  shows "map snd (insort_key (\<lambda>p. - fst p) (f x, x) ps) = insort_key (\<lambda>u. - f u) x (map snd ps)"
  using assms by (induction ps) auto

lemma sort_key_decorated:
  "map snd (sort_key (\<lambda>p. - fst p) (zip (map f xs) xs)) = sort_key (\<lambda>u. - f u) xs"
proof (induction xs)
  case Nil
  then show ?case by simp
next
  case (Cons x xs)
  have "\<forall>p\<in>set (sort_key (\<lambda>p. - fst p) (zip (map f xs) xs)). fst p = f (snd p)"
    by (auto simp: set_zip)
  then show ?case
    using Cons by (simp add: insort_key_decorated)
qed

lemma sort_users_dated:
  "list_all dated us \<Longrightarrow> sort_users us = Inr (sort_key (\<lambda>u. - time_of u) us)"
  by (simp add: sort_users_def sort_keys_dated sort_key_decorated)

lemma process_project_dated:
  assumes "proj_id p = Some project_id" and "get_users a project_id \<noteq> []"
    and "list_all dated (get_users a project_id)"
  shows "process_project a filter_timestamp p =
           Inr (if USER_LIMIT < length (newest_first filter_timestamp (get_users a project_id))
                then RemovingUsers
                       (int (length (newest_first filter_timestamp (get_users a project_id)))
                          - int USER_LIMIT) project_id
                     # remove_users project_id
                         (selected_for_removal filter_timestamp (get_users a project_id))
                else [WithinLimit project_id])"
proof -
  have "list_all dated (filter (\<lambda>u. filter_timestamp < time_of u) (get_users a project_id))"
    using assms(3) by (simp add: list_all_iff)
  then have "sort_users (filter (\<lambda>u. filter_timestamp < time_of u) (get_users a project_id))
               = Inr (newest_first filter_timestamp (get_users a project_id))"
    by (simp add: sort_users_dated newest_first_def)
  then show ?thesis
    using assms
    by (simp add: process_project_def filter_users_dated selected_for_removal_def Let_def
          nat_diff_distrib' of_nat_diff)
qed




lemma time_of_mk_user [simp]: "time_of (mk_user i) = int i"
  by (simp add: time_of_def mk_user_def)

lemma user_id_mk_user [simp]: "user_id (mk_user i) = Some (replicate i (CHR ''u''))"
  by (simp add: mk_user_def)

lemma dated_mk_user [simp]: "dated (mk_user i)"
  by (simp add: dated_def mk_user_def)

lemma newest_first_mk_users:
  assumes "ts < int lo"
  shows "newest_first ts (map mk_user [lo..<hi]) = map mk_user (rev [lo..<hi])"
proof -
  have keep: "filter (\<lambda>u. ts < time_of u) (map mk_user [lo..<hi]) = map mk_user [lo..<hi]"
    using assms by (auto simp: filter_map o_def intro!: filter_True)
  have "sort_key (\<lambda>u. - time_of u) (map mk_user [lo..<hi]) = map mk_user (rev [lo..<hi])"
  proof (rule sort_key_inj_key_eq)
    show "mset (map mk_user [lo..<hi]) = mset (map mk_user (rev [lo..<hi]))"
      by simp
    show "inj_on (\<lambda>u. - time_of u) (set (map mk_user [lo..<hi]))"
      by (auto intro!: inj_onI)
    show "sorted (map (\<lambda>u. - time_of u) (map mk_user (rev [lo..<hi])))"
      by (simp add: sorted_map sorted_wrt_rev o_def flip: sorted_map [of "\<lambda>x. x", simplified])
  qed
  with keep show ?thesis
    by (simp add: newest_first_def)
qed

lemma newest_first_old_prefix:
  assumes "\<forall>u\<in>set xs. time_of u \<le> ts"
  shows "newest_first ts (xs @ ys) = newest_first ts ys"
proof -
  have "filter (\<lambda>u. ts < time_of u) xs = []"
    using assms by (auto simp: filter_empty_conv)
  then show ?thesis
    by (simp add: newest_first_def)
qed

lemma remove_users_mk_users:
  "remove_users project_id (map mk_user is) = map (\<lambda>i. RemoveUser project_id (replicate i (CHR ''u''))) is"
  by (induction "is") (simp_all add: mk_user_def)

lemma get_users_one_project [simp]: "get_users (one_project users) project_id = users"
  by (simp add: get_users_def one_project_def)

lemma get_projects_one_project [simp]:
  "get_projects (one_project users) = [\<lparr>proj_id = Some ''p''\<rparr>]"
  by (simp add: get_projects_def one_project_def)

lemma newest_first_many_users:
  "newest_first 5 many_users = map mk_user (rev [6..<166])"
proof -
  have "[1..<166] = [1..<6] @ [6..<166]"
    using upt_add_eq_append[of 1 6 160] by simp
  then have "newest_first 5 many_users
               = newest_first 5 (map mk_user [1..<6] @ map mk_user [6..<166])"
    unfolding many_users_def by (simp only: map_append)
  also have "\<dots> = newest_first 5 (map mk_user [6..<166])"
    by (rule newest_first_old_prefix) auto
  also have "\<dots> = map mk_user (rev [6..<166])"
    by (rule newest_first_mk_users) simp
  finally show ?thesis .
qed

lemma length_newest_first_many_users: "length (newest_first 5 many_users) = 160"
  unfolding newest_first_many_users by simp

lemma selected_many_users:
  "selected_for_removal 5 many_users = map mk_user (rev [156..<166])"
  unfolding selected_for_removal_def length_newest_first_many_users newest_first_many_users
  by (simp add: USER_LIMIT_def take_map take_rev)

lemma many_users_dated: "\<forall>u\<in>set many_users. dated u"
  by (simp add: many_users_def)

lemma many_users_nonempty: "many_users \<noteq> []"
  by (simp add: many_users_def)


subsection \<open>Who is removed\<close>

lemma filter_users_sound:
  assumes "filter_users ts us = Inr fs" "u \<in> set fs"
  shows "u \<in> set us \<and> (\<exists>t. created_at u = CreatedAt t \<and> ts < t)"
  using assms
proof (induction us arbitrary: fs)
  case Nil
  then show ?case by simp
next
  case (Cons x xs)
  then show ?case
    by (auto simp: parse_created_at_def split: sum.splits created_at_field.splits if_splits)
qed

lemma sort_users_subset:
  assumes "sort_users fs = Inr cs"
  shows "set cs \<subseteq> set fs"
proof -
  from assms obtain ts :: "int list" where "cs = map snd (sort_key (\<lambda>p. - fst p) (zip ts fs))"
    by (auto simp: sort_users_def split: sum.splits)
  then have "set cs = snd ` set (zip ts fs)"
    by simp
  then show ?thesis
    by (auto dest: set_zip_rightD)
qed

lemma remove_users_events:
  assumes "RemoveUser q uid \<in> set (remove_users project_id sel)"
  shows "q = project_id \<and> (\<exists>u\<in>set sel. user_id u = Some uid)"
  using assms by (induction sel) (auto split: option.splits)

lemma process_project_removes:
  assumes "process_project a ts p = Inr evs" "RemoveUser q uid \<in> set evs"
  shows "\<exists>u\<in>set (get_users a q). user_id u = Some uid \<and> (\<exists>t. created_at u = CreatedAt t \<and> ts < t)"
proof -
  obtain project_id where pid: "proj_id p = Some project_id"
    using assms(1) by (cases "proj_id p") (simp_all add: process_project_def)
  obtain fs cs where fs: "filter_users ts (get_users a project_id) = Inr fs"
    and cs: "sort_users fs = Inr cs"
    and ev: "RemoveUser q uid \<in> set (remove_users project_id (take (nat (int (length cs) - int USER_LIMIT)) cs))"
    using assms pid
    by (auto simp: process_project_def Let_def split: if_splits sum.splits error.splits)
  from remove_users_events[OF ev] obtain u where q: "q = project_id"
    and u: "u \<in> set (take (nat (int (length cs) - int USER_LIMIT)) cs)" "user_id u = Some uid"
    by blast
  from u(1) have "u \<in> set cs" by (rule in_set_takeD)
  with sort_users_subset[OF cs] have "u \<in> set fs" by blast
  from filter_users_sound[OF fs this] u(2) q show ?thesis by blast
qed

lemma process_projects_removes:
  assumes "RemoveUser q uid \<in> set (fst (process_projects a ts ps))"
  shows "\<exists>u\<in>set (get_users a q). user_id u = Some uid \<and> (\<exists>t. created_at u = CreatedAt t \<and> ts < t)"
  using assms
proof (induction ps)
  case Nil
  then show ?case by simp
next
  case (Cons p ps)
  then show ?case
    by (auto split: sum.splits prod.splits dest: process_project_removes)
qed

text \<open>
  Claim C10. A user whose creation time equals the cutoff is never removed: when every
  user object of a project that carries the id \<open>uid\<close> was created exactly at the cutoff,
  no run calls \<^verbatim>\<open>remove_user\<close> for \<open>uid\<close> in that project, since line 62 keeps only
  users created strictly after the cutoff.
\<close>

theorem boundary_user_not_removed:
  assumes "\<forall>u\<in>set (get_users a project_id).
             user_id u = Some uid \<longrightarrow> created_at u = CreatedAt filter_timestamp"
  shows "RemoveUser project_id uid \<notin> set (fst (remove_excess_users a filter_timestamp))"
proof
  assume "RemoveUser project_id uid \<in> set (fst (remove_excess_users a filter_timestamp))"
  then have "RemoveUser project_id uid \<in> set (fst (process_projects a filter_timestamp (get_projects a)))"
    by (simp add: remove_excess_users_def Let_def split: if_splits)
  from process_projects_removes[OF this] assms show False
    by auto
qed

theorem boundary_user_not_removed_witness:
  "RemoveUser ''p'' (replicate 156 (CHR ''u''))
     \<in> set (fst (remove_excess_users (one_project many_users) 5))
   \<and> RemoveUser ''p'' (replicate 5 (CHR ''u''))
     \<notin> set (fst (remove_excess_users (one_project many_users) 5))
   \<and> mk_user 5 \<in> set many_users"
proof -
  have boundary: "\<forall>u\<in>set (get_users (one_project many_users) ''p'').
           user_id u = Some (replicate 5 (CHR ''u'')) \<longrightarrow> created_at u = CreatedAt 5"
    by (auto simp: mk_user_def many_users_def)
  have "process_project (one_project many_users) 5 \<lparr>proj_id = Some ''p''\<rparr>
     = Inr (RemovingUsers 10 ''p''
            # map (\<lambda>i. RemoveUser ''p'' (replicate i (CHR ''u''))) (rev [156..<166]))"
    using process_project_dated [of "\<lparr>proj_id = Some ''p''\<rparr>" "''p''" "one_project many_users" 5]
      many_users_nonempty many_users_dated
    by (simp add: list_all_iff length_newest_first_many_users selected_many_users
          remove_users_mk_users USER_LIMIT_def)
  then have "fst (remove_excess_users (one_project many_users) 5)
          = RemovingUsers 10 ''p''
            # map (\<lambda>i. RemoveUser ''p'' (replicate i (CHR ''u''))) (rev [156..<166])"
    by (simp add: remove_excess_users_def)
  then have "RemoveUser ''p'' (replicate 156 (CHR ''u''))
     \<in> set (fst (remove_excess_users (one_project many_users) 5))"
    by simp
  moreover have "mk_user 5 \<in> set many_users"
    by (simp add: many_users_def)
  ultimately show ?thesis
    using boundary_user_not_removed [OF boundary] by simp
qed

subsection \<open>Users with missing data\<close>








section \<open>Properties of the bulk import\<close>



end
